theory Spec2Isabelle
  imports Complex_Main "HOL-Library.Multiset"
begin

section \<open>Data model\<close>

text \<open>
  The embedding follows \<^verbatim>\<open>src/utils/xirr.ts\<close> and the window builder of
  \<^verbatim>\<open>src/App.tsx\<close>.

  A JavaScript \<^verbatim>\<open>number\<close> is modelled as a real. The arithmetic of the two solvers is
  exact; the three sums of \<^verbatim>\<open>calculateXIRR\<close>, of which one decides whether a result is
  returned, are rounded to a double after every addition (\<open>round_double\<close>). Overflow to
  infinity and NaN are outside the model. \<^verbatim>\<open>Math.pow\<close> is
  \<open>powr\<close>, which is the power function for a positive base; the lemmas
  \<open>newton_rates_lower\<close>, \<open>newton_loop_lower\<close>, \<open>brent_loop_within\<close> and
  \<open>calculateWithBrent_bounds\<close> below show that the rates of both solvers stay at or
  above \<open>-0.99\<close>, so that \<open>1 + rate\<close> is positive where the program raises it to a
  power.

  A \<^verbatim>\<open>Date\<close> is its time value \<^verbatim>\<open>getTime()\<close>, an integer number of milliseconds.
  The calendar components \<^verbatim>\<open>getFullYear()\<close>, \<^verbatim>\<open>getMonth()\<close>, \<^verbatim>\<open>getDate()\<close> are read
  in the time zone UTC. \<^verbatim>\<open>Date.UTC\<close> reads a year from 0 to 99 as a year from 1900 to
  1999, so that it gives back the midnight of the day only outside these years.

  The formatted strings of the results (\<^verbatim>\<open>ratePercent\<close>, \<^verbatim>\<open>xirrPercent\<close>,
  \<^verbatim>\<open>simpleReturnPercent\<close>, \<^verbatim>\<open>differencePercent\<close>) are \<^verbatim>\<open>toFixed\<close> renderings of
  fields that the records keep, and are left out.
\<close>

type_synonym Date = int

record CashFlow =
  date :: Date
  amount :: real
  description :: "string option"

record MethodResult =
  rate :: real
  iterations :: nat
  method_name :: string
  converged :: bool
  finalNPV :: real

record XIRRResult =
  xirr :: real
  simpleReturn :: real
  annualized :: bool
  totalDays :: real
  netCashFlow :: real
  firstCashFlow :: real
  lastCashFlow :: real
  totalInflows :: real
  totalOutflows :: real
  newtonRaphson :: MethodResult
  brent :: MethodResult
  hasDifference :: bool
  difference :: real

section \<open>Day count and present value\<close>

definition msPerDay :: int where
  "msPerDay = 1000 * 60 * 60 * 24"

text \<open>
  The calendar of the language, as its specification defines it, over days since the
  epoch: \<^verbatim>\<open>Day\<close>, \<^verbatim>\<open>DayFromYear\<close>, \<^verbatim>\<open>YearFromTime\<close> (the year whose first day is
  the last at or before the day of the time value; the estimate by the mean length of the
  year is at most one year off, lemma \<open>YearFromTime_bounds\<close>), \<^verbatim>\<open>DaysInYear\<close>,
  \<^verbatim>\<open>DayWithinYear\<close>, \<^verbatim>\<open>MonthFromTime\<close> and \<^verbatim>\<open>DateFromTime\<close>; months count from 0.
\<close>

definition Day :: "Date \<Rightarrow> int" where
  "Day t = t div msPerDay"

definition DayFromYear :: "int \<Rightarrow> int" where
  "DayFromYear y =
     365 * (y - 1970) + (y - 1969) div 4 - (y - 1901) div 100 + (y - 1601) div 400"

definition YearFromTime :: "Date \<Rightarrow> int" where
  "YearFromTime t =
     (let d = Day t;
          y0 = 1970 + (400 * d) div 146097
      in if d < DayFromYear y0 then y0 - 1
         else if DayFromYear (y0 + 1) \<le> d then y0 + 1
         else y0)"

definition DaysInYear :: "int \<Rightarrow> int" where
  "DaysInYear y =
     (if y mod 4 \<noteq> 0 then 365
      else if y mod 100 \<noteq> 0 then 366
      else if y mod 400 \<noteq> 0 then 365
      else 366)"

definition DayWithinYear :: "Date \<Rightarrow> int" where
  "DayWithinYear t = Day t - DayFromYear (YearFromTime t)"

text \<open>The day within the year on which a month starts; \<open>leap\<close> is 1 in a leap year.\<close>

definition monthStart :: "int \<Rightarrow> int \<Rightarrow> int" where
  "monthStart m leap =
     (if m = 0 then 0
      else if m = 1 then 31
      else if m = 2 then 59 + leap
      else if m = 3 then 90 + leap
      else if m = 4 then 120 + leap
      else if m = 5 then 151 + leap
      else if m = 6 then 181 + leap
      else if m = 7 then 212 + leap
      else if m = 8 then 243 + leap
      else if m = 9 then 273 + leap
      else if m = 10 then 304 + leap
      else 334 + leap)"

definition MonthFromTime :: "Date \<Rightarrow> int" where
  "MonthFromTime t =
     (let d = DayWithinYear t;
          leap = DaysInYear (YearFromTime t) - 365
      in if d < 31 then 0
         else if d < 59 + leap then 1
         else if d < 90 + leap then 2
         else if d < 120 + leap then 3
         else if d < 151 + leap then 4
         else if d < 181 + leap then 5
         else if d < 212 + leap then 6
         else if d < 243 + leap then 7
         else if d < 273 + leap then 8
         else if d < 304 + leap then 9
         else if d < 334 + leap then 10
         else 11)"

definition DateFromTime :: "Date \<Rightarrow> int" where
  "DateFromTime t =
     DayWithinYear t
       - monthStart (MonthFromTime t) (DaysInYear (YearFromTime t) - 365) + 1"

text \<open>
  \<^verbatim>\<open>Date.UTC(year, month, date)\<close> for a month from 0 to 11: a year from 0 to 99 is
  read as a year of the twentieth century, and the day is the first day of the month of
  that year plus the date less one.
\<close>

definition Date_UTC :: "int \<Rightarrow> int \<Rightarrow> int \<Rightarrow> int" where
  "Date_UTC year month date' =
     (let yr = (if 0 \<le> year \<and> year \<le> 99 then 1900 + year else year)
      in (DayFromYear yr + monthStart month (DaysInYear yr - 365) + date' - 1) * msPerDay)"

text \<open>
  \<^verbatim>\<open>dateDiffInDays\<close>; \<^verbatim>\<open>getFullYear\<close>, \<^verbatim>\<open>getMonth\<close> and \<^verbatim>\<open>getDate\<close> are
  \<^verbatim>\<open>YearFromTime\<close>, \<^verbatim>\<open>MonthFromTime\<close> and \<^verbatim>\<open>DateFromTime\<close> in the time zone UTC.
\<close>

definition dateDiffInDays :: "Date \<Rightarrow> Date \<Rightarrow> real" where
  "dateDiffInDays date1 date2 =
     (let utc1 = Date_UTC (YearFromTime date1) (MonthFromTime date1) (DateFromTime date1);
          utc2 = Date_UTC (YearFromTime date2) (MonthFromTime date2) (DateFromTime date2)
      in \<bar>real_of_int (utc2 - utc1) / real_of_int msPerDay\<bar>)"

definition calculateNPV :: "real \<Rightarrow> CashFlow list \<Rightarrow> Date \<Rightarrow> real" where
  "calculateNPV r cashFlows startDate =
     fold (\<lambda>flow npv.
             let days = dateDiffInDays startDate (date flow);
                 years = days / 365.25
             in npv + amount flow / (1 + r) powr years)
          cashFlows 0"

definition calculateDerivativeNPV :: "real \<Rightarrow> CashFlow list \<Rightarrow> Date \<Rightarrow> real" where
  "calculateDerivativeNPV r cashFlows startDate =
     fold (\<lambda>flow dnpv.
             let days = dateDiffInDays startDate (date flow);
                 years = days / 365.25
             in dnpv + (- years * amount flow) / (1 + r) powr (years + 1))
          cashFlows 0"

section \<open>Newton-Raphson solver\<close>

definition maxIterations :: nat where
  "maxIterations = 100"

definition precision :: real where
  "precision = 0.000001"

text \<open>Lines 87 to 93: the step, and the clamp at \<open>-0.99\<close>.\<close>

definition newton_update :: "real \<Rightarrow> real \<Rightarrow> real \<Rightarrow> real" where
  "newton_update r npv dnpv =
     (let newRate = r - npv / dnpv
      in if newRate \<le> - 0.99 then - 0.99 else newRate)"

text \<open>
  The \<^verbatim>\<open>for\<close> loop of \<^verbatim>\<open>calculateWithNewtonRaphson\<close>, from the loop counter
  \<open>its\<close> on. It returns the rate, the loop counter and the convergence flag as they
  stand when the loop is left, by either \<^verbatim>\<open>break\<close> or by the loop condition.
\<close>

function newton_loop :: "CashFlow list \<Rightarrow> Date \<Rightarrow> real \<Rightarrow> nat \<Rightarrow> real \<times> nat \<times> bool" where
  "newton_loop cashFlows startDate r its =
     (if its < maxIterations then
        (let npv = calculateNPV r cashFlows startDate
         in if \<bar>npv\<bar> < precision then (r, its, True)
            else
              (let dnpv = calculateDerivativeNPV r cashFlows startDate
               in if dnpv = 0 then (r, its, False)
                  else newton_loop cashFlows startDate (newton_update r npv dnpv) (its + 1)))
      else (r, its, False))"
  by pat_completeness auto
termination
  by (relation "measure (\<lambda>(cashFlows, startDate, r, its). maxIterations - its)") auto

declare newton_loop.simps [simp del]

definition calculateWithNewtonRaphson :: "CashFlow list \<Rightarrow> Date \<Rightarrow> real \<Rightarrow> MethodResult" where
  "calculateWithNewtonRaphson cashFlows startDate initialGuess =
     (case newton_loop cashFlows startDate initialGuess 0 of
        (r, its, conv) \<Rightarrow>
          \<lparr>rate = r,
           iterations = its + 1,
           method_name = ''Newton-Raphson'',
           converged = conv,
           finalNPV = calculateNPV r cashFlows startDate\<rparr>)"

text \<open>
  The rates at which one run of the loop evaluates \<^verbatim>\<open>calculateNPV\<close> (and, when the
  value is not within the precision, \<^verbatim>\<open>calculateDerivativeNPV\<close>), in the order of the
  iterations. It follows the recursion of \<open>newton_loop\<close>.
\<close>

function newton_rates :: "CashFlow list \<Rightarrow> Date \<Rightarrow> real \<Rightarrow> nat \<Rightarrow> real list" where
  "newton_rates cashFlows startDate r its =
     (if its < maxIterations then
        (let npv = calculateNPV r cashFlows startDate
         in if \<bar>npv\<bar> < precision then [r]
            else
              (let dnpv = calculateDerivativeNPV r cashFlows startDate
               in if dnpv = 0 then [r]
                  else r # newton_rates cashFlows startDate (newton_update r npv dnpv) (its + 1)))
      else [])"
  by pat_completeness auto
termination
  by (relation "measure (\<lambda>(cashFlows, startDate, r, its). maxIterations - its)") auto

declare newton_rates.simps [simp del]

section \<open>Bracketing solver\<close>

text \<open>
  The local variables \<^verbatim>\<open>a\<close>, \<^verbatim>\<open>b\<close>, \<^verbatim>\<open>c\<close>, \<^verbatim>\<open>d\<close>, \<^verbatim>\<open>e\<close>, \<^verbatim>\<open>fa\<close>, \<^verbatim>\<open>fb\<close>, \<^verbatim>\<open>fc\<close> of
  \<^verbatim>\<open>calculateWithBrent\<close>, as one state.
\<close>

record brent_state =
  pt_a :: real
  pt_b :: real
  pt_c :: real
  step_d :: real
  step_e :: real
  f_a :: real
  f_b :: real
  f_c :: real

text \<open>Lines 116 to 134: the initial values, and the second bracket.\<close>

definition brent_init :: "CashFlow list \<Rightarrow> Date \<Rightarrow> real \<Rightarrow> real \<Rightarrow> brent_state" where
  "brent_init cashFlows startDate lowerBound upperBound =
     (let a = lowerBound;
          b = upperBound;
          c = a;
          d = b - a;
          e = d;
          fa = calculateNPV a cashFlows startDate;
          fb = calculateNPV b cashFlows startDate;
          fc = fa
      in if fa * fb \<ge> 0 then
           \<lparr>pt_a = - 0.5, pt_b = 5.0, pt_c = c, step_d = d, step_e = e,
            f_a = calculateNPV (- 0.5) cashFlows startDate,
            f_b = calculateNPV 5.0 cashFlows startDate,
            f_c = fc\<rparr>
         else
           \<lparr>pt_a = a, pt_b = b, pt_c = c, step_d = d, step_e = e,
            f_a = fa, f_b = fb, f_c = fc\<rparr>)"

text \<open>Lines 137 to 144: \<^verbatim>\<open>b\<close> becomes the point with the smaller absolute present value.\<close>

definition brent_swap :: "brent_state \<Rightarrow> brent_state" where
  "brent_swap s =
     (if \<bar>f_c s\<bar> < \<bar>f_b s\<bar> then
        s\<lparr>pt_a := pt_b s, pt_b := pt_c s, pt_c := pt_b s,
          f_a := f_b s, f_b := f_c s, f_c := f_b s\<rparr>
      else s)"

text \<open>
  Lines 158 to 169: the numerator \<^verbatim>\<open>p\<close> and the denominator \<^verbatim>\<open>q\<close> of the
  interpolated step, by the secant rule when \<^verbatim>\<open>a\<close> and \<^verbatim>\<open>c\<close> coincide and by inverse
  quadratic interpolation otherwise.
\<close>

definition brent_interpolate :: "brent_state \<Rightarrow> real \<Rightarrow> real \<times> real" where
  "brent_interpolate s m =
     (let s1 = f_b s / f_a s
      in if pt_a s = pt_c s then (2 * m * s1, 1 - s1)
         else
           (let q = f_a s / f_c s;
                r = f_b s / f_c s
            in (s1 * (2 * m * q * (q - r) - (pt_b s - pt_a s) * (r - 1)),
                (q - 1) * (r - 1) * (s1 - 1))))"

text \<open>Lines 171 to 175: the sign is moved to \<^verbatim>\<open>q\<close>.\<close>

definition brent_orient :: "real \<times> real \<Rightarrow> real \<times> real" where
  "brent_orient pq = (case pq of (p, q) \<Rightarrow> if p > 0 then (p, - q) else (- p, q))"

text \<open>
  Lines 154 to 186: the new values of \<^verbatim>\<open>d\<close> and \<^verbatim>\<open>e\<close>, by bisection or by
  interpolation.
\<close>

definition brent_select :: "brent_state \<Rightarrow> real \<Rightarrow> real \<Rightarrow> real \<times> real" where
  "brent_select s tol m =
     (if \<bar>step_e s\<bar> < tol \<or> \<bar>f_a s\<bar> \<le> \<bar>f_b s\<bar> then (m, m)
      else
        (case brent_orient (brent_interpolate s m) of
           (p, q) \<Rightarrow>
             (let s2 = 2 * p
              in if s2 < 3 * m * q - \<bar>tol * q\<bar> \<and> s2 < \<bar>step_e s * q\<bar>
                 then (p / q, step_d s)
                 else (m, m))))"

text \<open>Lines 188 to 204: the move of \<^verbatim>\<open>b\<close>, and the bracket kept around it.\<close>

definition brent_advance ::
  "CashFlow list \<Rightarrow> Date \<Rightarrow> brent_state \<Rightarrow> real \<Rightarrow> real \<Rightarrow> brent_state" where
  "brent_advance cashFlows startDate s tol m =
     (case brent_select s tol m of
        (d, e) \<Rightarrow>
          (let a = pt_b s;
               fa = f_b s;
               b = (if \<bar>d\<bar> > tol then pt_b s + d
                    else pt_b s + (if m \<ge> 0 then tol else - tol));
               fb = calculateNPV b cashFlows startDate
           in if fb * f_c s > 0 then
                \<lparr>pt_a = a, pt_b = b, pt_c = a, step_d = b - a, step_e = b - a,
                 f_a = fa, f_b = fb, f_c = fa\<rparr>
              else
                \<lparr>pt_a = a, pt_b = b, pt_c = pt_c s, step_d = d, step_e = e,
                 f_a = fa, f_b = fb, f_c = f_c s\<rparr>))"

text \<open>
  The \<^verbatim>\<open>for\<close> loop of \<^verbatim>\<open>calculateWithBrent\<close>, from the loop counter \<open>its\<close> on,
  with the state, the loop counter and the convergence flag as they stand when the loop is
  left.
\<close>

function brent_loop ::
  "CashFlow list \<Rightarrow> Date \<Rightarrow> brent_state \<Rightarrow> nat \<Rightarrow> brent_state \<times> nat \<times> bool" where
  "brent_loop cashFlows startDate s its =
     (if its < maxIterations then
        (let s1 = brent_swap s;
             tol = 2 * precision * \<bar>pt_b s1\<bar> + precision;
             m = 0.5 * (pt_c s1 - pt_b s1)
         in if \<bar>m\<bar> \<le> tol \<or> \<bar>f_b s1\<bar> < precision then (s1, its, True)
            else brent_loop cashFlows startDate
                   (brent_advance cashFlows startDate s1 tol m) (its + 1))
      else (s, its, False))"
  by pat_completeness auto
termination
  by (relation "measure (\<lambda>(cashFlows, startDate, s, its). maxIterations - its)") auto

declare brent_loop.simps [simp del]

definition calculateWithBrent ::
  "CashFlow list \<Rightarrow> Date \<Rightarrow> real \<Rightarrow> real \<Rightarrow> MethodResult" where
  "calculateWithBrent cashFlows startDate lowerBound upperBound =
     (case brent_loop cashFlows startDate
             (brent_init cashFlows startDate lowerBound upperBound) 0 of
        (s, its, conv) \<Rightarrow>
          \<lparr>rate = pt_b s,
           iterations = its + 1,
           method_name = ''Brent's Method'',
           converged = conv,
           finalNPV = calculateNPV (pt_b s) cashFlows startDate\<rparr>)"

section \<open>Reconciling the two solvers\<close>

text \<open>
  \<^verbatim>\<open>calculateXIRR\<close>; \<open>None\<close> is the \<^verbatim>\<open>null\<close> of the source. The sort of JavaScript
  is stable, as \<open>sort_key\<close> is; \<^verbatim>\<open>sortedFlows[0]\<close> and the last element exist, since
  the list has at least two elements where they are read.
\<close>

text \<open>
  The sum of two doubles is the real sum rounded to the nearest number with a significand
  of 53 bits, a tie going to the even significand. \<open>round_double\<close> does this at every
  exponent: a sum of two doubles that is below the normal range is a double, and rounding
  leaves it as it is; a sum beyond the largest double is infinite in the source and finite
  here, with the same sign.
\<close>

definition roundTiesToEven :: "real \<Rightarrow> int" where
  "roundTiesToEven y =
     (let f = \<lfloor>y\<rfloor>; d = y - of_int f
      in if d < 1 / 2 then f else if 1 / 2 < d then f + 1 else if even f then f else f + 1)"

definition round_double :: "real \<Rightarrow> real" where
  "round_double x =
     (if x = 0 then 0
      else (let u = 2 powr (of_int \<lfloor>log 2 \<bar>x\<bar>\<rfloor> - 52)
            in of_int (roundTiesToEven (x / u)) * u))"

definition calculateXIRR :: "CashFlow list \<Rightarrow> XIRRResult option" where
  "calculateXIRR cashFlows =
     (if length cashFlows < 2 then None
      else
        (let sortedFlows = sort_key date cashFlows;
             startDate = date (hd sortedFlows);
             endDate = date (last sortedFlows);
             totalDays' = dateDiffInDays startDate endDate;
             netCashFlow' = fold (\<lambda>flow sum. round_double (sum + amount flow)) sortedFlows 0;
             outflows = filter (\<lambda>f. amount f < 0) sortedFlows;
             inflows = filter (\<lambda>f. amount f > 0) sortedFlows;
             totalOutflows' = fold (\<lambda>flow sum. round_double (sum + \<bar>amount flow\<bar>)) outflows 0;
             totalInflows' = fold (\<lambda>flow sum. round_double (sum + amount flow)) inflows 0;
             firstCashFlow' = amount (hd sortedFlows);
             lastCashFlow' = amount (last sortedFlows)
         in if lastCashFlow' < 0 \<and> netCashFlow' < 0 then None
            else
              (let newtonResult = calculateWithNewtonRaphson sortedFlows startDate 0.1;
                   brentResult = calculateWithBrent sortedFlows startDate (- 0.99) 10.0;
                   bestResult =
                     (if \<bar>finalNPV newtonResult\<bar> < \<bar>finalNPV brentResult\<bar>
                      then newtonResult else brentResult);
                   r = rate bestResult;
                   difference' = \<bar>rate newtonResult - rate brentResult\<bar>;
                   hasDifference' = (difference' > 0.00001);
                   annualized' = (totalDays' > 365);
                   years = totalDays' / 365.25;
                   simpleReturn' = (1 + r) powr years - 1
               in Some
                    \<lparr>xirr = r,
                     simpleReturn = simpleReturn',
                     annualized = annualized',
                     totalDays = totalDays',
                     netCashFlow = netCashFlow',
                     firstCashFlow = firstCashFlow',
                     lastCashFlow = lastCashFlow',
                     totalInflows = totalInflows',
                     totalOutflows = totalOutflows',
                     newtonRaphson = newtonResult,
                     brent = brentResult,
                     hasDifference = hasDifference',
                     difference = difference'\<rparr>)))"

section \<open>Window builder\<close>

text \<open>
  \<^verbatim>\<open>buildPeriodCashFlows\<close> of \<^verbatim>\<open>App.tsx\<close> works on the strings of the form. A string
  is false in a condition exactly when it is empty. The parsers \<^verbatim>\<open>parseFloat\<close> and
  \<^verbatim>\<open>new Date\<close> belong to the language, not to the repository, and are parameters;
  \<^verbatim>\<open>periodFlows\<close>, a variable of the enclosing component, is a parameter as well. The
  fields of \<^verbatim>\<open>FlowInput\<close> carry a prefix, since \<open>id\<close> is a constant of HOL and the
  other names are fields of \<open>CashFlow\<close>.
\<close>

record FlowInput =
  input_id :: string
  input_date :: string
  input_amount :: string
  input_description :: string

definition findStartValueForDate :: "string \<Rightarrow> string" where
  "findStartValueForDate dateStr = []"

text \<open>Lines 117 to 124: the flows of the form that are filled in, parsed.\<close>

definition parsedPeriodFlows ::
  "(string \<Rightarrow> real) \<Rightarrow> (string \<Rightarrow> Date) \<Rightarrow> FlowInput list \<Rightarrow> CashFlow list" where
  "parsedPeriodFlows parseFloat newDate periodFlows =
     map (\<lambda>f. \<lparr>date = newDate (input_date f),
                 amount = parseFloat (input_amount f),
                 description = Some (input_description f)\<rparr>)
       (filter (\<lambda>f. input_date f \<noteq> [] \<and> input_amount f \<noteq> []) periodFlows)"

definition buildPeriodCashFlows ::
  "(string \<Rightarrow> real) \<Rightarrow> (string \<Rightarrow> Date) \<Rightarrow> FlowInput list \<Rightarrow>
   string \<Rightarrow> string \<Rightarrow> string \<Rightarrow> string \<Rightarrow> CashFlow list" where
  "buildPeriodCashFlows parseFloat newDate periodFlows startDateStr endDateStr startValue endValue =
     (if startDateStr = [] \<or> endDateStr = [] \<or> endValue = [] then []
      else
        (let effectiveStartValue =
               (if startValue \<noteq> [] then startValue else findStartValueForDate startDateStr)
         in if effectiveStartValue = [] then []
            else
              (let startDate = newDate startDateStr;
                   endDate = newDate endDateStr;
                   intermediateFlows =
                     filter (\<lambda>f. date f > startDate \<and> date f < endDate)
                       (parsedPeriodFlows parseFloat newDate periodFlows);
                   flows =
                     [\<lparr>date = startDate,
                       amount = - \<bar>parseFloat effectiveStartValue\<bar>,
                       description = Some ''Period Start Value''\<rparr>]
                     @ intermediateFlows
                     @ [\<lparr>date = endDate,
                         amount = parseFloat endValue,
                         description = Some ''Period End Value''\<rparr>]
               in sort_key date flows)))"

text \<open>
  The values of \<^verbatim>\<open>parseFloat\<close> and \<^verbatim>\<open>new Date\<close> on the strings of the examples
  below; a date-only string is parsed as midnight UTC.
\<close>

definition sample_parseFloat :: "string \<Rightarrow> real" where
  "sample_parseFloat s =
     (case map_of [(''100000'', 100000), (''50000'', 50000), (''5000'', 5000),
                   (''-10000'', - 10000)] s of
        Some v \<Rightarrow> v
      | None \<Rightarrow> 0)"

definition sample_newDate :: "string \<Rightarrow> Date" where
  "sample_newDate s =
     (case map_of [(''2024-01-01'', 1704067200000), (''2024-06-15'', 1718409600000),
                   (''2024-09-30'', 1727654400000), (''2024-12-31'', 1735603200000)] s of
        Some v \<Rightarrow> v
      | None \<Rightarrow> 0)"


section \<open>The calendar\<close>


lemma div_bounds:
  fixes a c :: int
  assumes "0 < c"
  shows "c * (a div c) \<le> a" and "a < c * (a div c) + c"
proof -
  have "a = c * (a div c) + a mod c" by simp
  moreover have "0 \<le> a mod c" "a mod c < c" using assms by simp_all
  ultimately show "c * (a div c) \<le> a" and "a < c * (a div c) + c" by linarith+
qed

lemma DayFromYear_bounds:
  "146097 * y - 287811596 \<le> 400 * DayFromYear y"
  "400 * DayFromYear y \<le> 146097 * y - 287810501"
proof -
  define a where "a = (y - 1969) div 4"
  define b where "b = (y - 1901) div 100"
  define c where "c = (y - 1601) div 400"
  have 4: "4 * a \<le> y - 1969" "y - 1969 < 4 * a + 4"
    unfolding a_def by (rule div_bounds, simp)+
  have 100: "100 * b \<le> y - 1901" "y - 1901 < 100 * b + 100"
    unfolding b_def by (rule div_bounds, simp)+
  have 400: "400 * c \<le> y - 1601" "y - 1601 < 400 * c + 400"
    unfolding c_def by (rule div_bounds, simp)+
  have d: "400 * DayFromYear y = 146000 * y - 287620000 + 400 * a - 400 * b + 400 * c"
    by (simp add: DayFromYear_def a_def b_def c_def algebra_simps)
  show "146097 * y - 287811596 \<le> 400 * DayFromYear y"
    unfolding d using 4 100 400 by linarith
  show "400 * DayFromYear y \<le> 146097 * y - 287810501"
    unfolding d using 4 100 400 by linarith
qed

text \<open>\<open>YearFromTime t\<close> is the year that holds the day of \<open>t\<close>.\<close>

lemma YearFromTime_bounds:
  "DayFromYear (YearFromTime t) \<le> Day t \<and> Day t < DayFromYear (YearFromTime t + 1)"
proof -
  define d where "d = Day t"
  define q where "q = (400 * d) div 146097"
  define y0 where "y0 = 1970 + q"
  have "146097 * q \<le> 400 * d" "400 * d < 146097 * q + 146097"
    unfolding q_def by (rule div_bounds, simp)+
  moreover have "146097 * y0 = 287811090 + 146097 * q"
    by (simp add: y0_def algebra_simps)
  ultimately have e: "146097 * y0 - 287811090 \<le> 400 * d"
    "400 * d < 146097 * y0 - 287664993"
    by linarith+
  have y0: "1970 + (400 * Day t) div 146097 = y0"
    by (simp add: y0_def q_def d_def)
  consider "d < DayFromYear y0" | "DayFromYear y0 \<le> d" "DayFromYear (y0 + 1) \<le> d"
    | "DayFromYear y0 \<le> d" "d < DayFromYear (y0 + 1)"
    by linarith
  then show ?thesis
  proof cases
    case 1
    then have y: "YearFromTime t = y0 - 1"
      by (simp add: YearFromTime_def y0 Let_def d_def)
    define z where "z = y0 - 1"
    have "400 * DayFromYear z \<le> 146097 * z - 287810501"
      by (rule DayFromYear_bounds)
    moreover have "146097 * z = 146097 * y0 - 146097"
      by (simp add: z_def algebra_simps)
    ultimately have "DayFromYear z \<le> d"
      using e by linarith
    with 1 show ?thesis unfolding y z_def d_def by simp
  next
    case 2
    then have y: "YearFromTime t = y0 + 1"
      by (simp add: YearFromTime_def y0 Let_def d_def)
    define z where "z = y0 + 1 + 1"
    have "146097 * z - 287811596 \<le> 400 * DayFromYear z"
      by (rule DayFromYear_bounds)
    moreover have "146097 * z = 146097 * y0 + 292194"
      by (simp add: z_def algebra_simps)
    ultimately have "d < DayFromYear z"
      using e by linarith
    with 2 show ?thesis unfolding y z_def d_def by simp
  next
    case 3
    then have y: "YearFromTime t = y0"
      by (simp add: YearFromTime_def y0 Let_def d_def)
    with 3 show ?thesis unfolding d_def by simp
  qed
qed

text \<open>
  Outside the years 0 to 99, \<^verbatim>\<open>Date.UTC\<close> of the calendar components of a time value
  is the midnight that starts its day, and the day count is the number of calendar days.
\<close>

lemma Date_UTC_components:
  assumes "\<not> (0 \<le> YearFromTime t \<and> YearFromTime t \<le> 99)"
  shows "Date_UTC (YearFromTime t) (MonthFromTime t) (DateFromTime t) = Day t * msPerDay"
proof -
  have "(if 0 \<le> YearFromTime t \<and> YearFromTime t \<le> 99 then 1900 + YearFromTime t
         else YearFromTime t) = YearFromTime t"
    using assms by simp
  then show ?thesis
    by (simp add: Date_UTC_def DateFromTime_def DayWithinYear_def Let_def)
qed

lemma dateDiffInDays_calendar:
  assumes "\<not> (0 \<le> YearFromTime date1 \<and> YearFromTime date1 \<le> 99)"
    and "\<not> (0 \<le> YearFromTime date2 \<and> YearFromTime date2 \<le> 99)"
  shows "dateDiffInDays date1 date2 = \<bar>real_of_int (Day date2 - Day date1)\<bar>"
proof -
  have "real_of_int (Day date2 * msPerDay - Day date1 * msPerDay) / real_of_int msPerDay
        = real_of_int (Day date2 - Day date1)"
    by (simp add: msPerDay_def field_simps)
  then show ?thesis
    unfolding dateDiffInDays_def Let_def Date_UTC_components [OF assms(1)]
      Date_UTC_components [OF assms(2)]
    by simp
qed

text \<open>The years and day counts of the dates of the examples below.\<close>

lemma year_values:
  "YearFromTime 0 = 1970" "YearFromTime 126230400000 = 1974"
  "YearFromTime 1704067200000 = 2024" "YearFromTime 1735603200000 = 2024"
  "YearFromTime 1735689600000 = 2025" "YearFromTime 86400000 = 1970"
  "YearFromTime (- 59011459200000) = 100" "YearFromTime (- 59011545600000) = 99"
  by (simp_all add: YearFromTime_def Day_def DayFromYear_def msPerDay_def)

lemma day_count_values:
  "dateDiffInDays 0 0 = 0"
  "dateDiffInDays 0 126230400000 = 1461"
  "dateDiffInDays 1704067200000 1735603200000 = 365"
  "dateDiffInDays 1704067200000 1735689600000 = 366"
  by (simp_all add: dateDiffInDays_calendar year_values Day_def msPerDay_def)


section \<open>Sums and sorting\<close>

lemma fold_add_sum_list:
  "fold (\<lambda>x s. s + f x) xs (a::real) = a + sum_list (map f xs)"
  by (induction xs arbitrary: a) (simp_all add: algebra_simps)

lemma sum_list_sort_key:
  "sum_list (map f (sort_key k xs)) = (sum_list (map f xs) :: real)"
proof -
  have "mset (map f (sort_key k xs)) = mset (map f xs)"
    by simp
  then show ?thesis
    by (metis sum_mset_sum_list)
qed


lemma calculateDerivativeNPV_sum:
  "calculateDerivativeNPV r cashFlows startDate =
     (\<Sum>flow\<leftarrow>cashFlows. (- (dateDiffInDays startDate (date flow) / 365.25) * amount flow) /
        (1 + r) powr (dateDiffInDays startDate (date flow) / 365.25 + 1))"
  unfolding calculateDerivativeNPV_def Let_def fold_add_sum_list by simp





section \<open>Rounding of the sums\<close>

lemma roundTiesToEven_of_int [simp]: "roundTiesToEven (of_int n) = n"
  by (simp add: roundTiesToEven_def)

lemma round_double_0 [simp]: "round_double 0 = 0"
  by (simp add: round_double_def)

lemma floor_log2:
  fixes x :: real
  assumes "2 ^ n \<le> x" and "x < 2 ^ Suc n"
  shows "\<lfloor>log 2 x\<rfloor> = int n"
proof -
  have pos: "0 < x"
    using assms(1) by (smt (verit) zero_less_power)
  have "real n \<le> log 2 x"
    using assms(1) pos by (simp add: le_log_iff powr_realpow)
  moreover have "log 2 x < real n + 1"
    using assms(2) pos by (simp add: log_less_iff powr_realpow powr_add)
  ultimately show ?thesis
    by (simp add: floor_eq_iff)
qed

lemma round_double_binade:
  fixes x :: real
  assumes "2 ^ n \<le> \<bar>x\<bar>" and "\<bar>x\<bar> < 2 ^ Suc n"
  shows "round_double x = of_int (roundTiesToEven (x * 2 ^ 52 / 2 ^ n)) * 2 ^ n / 2 ^ 52"
proof -
  have nz: "x \<noteq> 0"
    using assms(1) by (smt (verit) zero_less_power)
  have e: "\<lfloor>log 2 \<bar>x\<bar>\<rfloor> = int n"
    using assms by (rule floor_log2)
  have "2 powr (real n - 52) = (2::real) powr real n / 2 powr 52"
    by (simp add: powr_diff)
  also have "\<dots> = 2 ^ n / 2 ^ 52"
    by (simp add: powr_realpow)
  finally have u: "2 powr (real n - 52) = (2::real) ^ n / 2 ^ 52" .
  have "round_double x = of_int (roundTiesToEven (x / (2 ^ n / 2 ^ 52))) * (2 ^ n / 2 ^ 52)"
    using nz unfolding round_double_def e Let_def of_int_of_nat_eq u by simp
  then show ?thesis
    by simp
qed

lemma round_double_of_int:
  assumes "\<bar>n\<bar> < 2 ^ 53"
  shows "round_double (of_int n) = of_int n"
proof (cases "n = 0")
  case True
  then show ?thesis by simp
next
  case False
  define k where "k = nat \<lfloor>log 2 (real_of_int \<bar>n\<bar>)\<rfloor>"
  have one: "1 \<le> real_of_int \<bar>n\<bar>"
    using False by linarith
  then have l0: "0 \<le> log 2 (real_of_int \<bar>n\<bar>)"
    by simp
  have "2 powr (of_int \<lfloor>log 2 (real_of_int \<bar>n\<bar>)\<rfloor>) \<le> real_of_int \<bar>n\<bar>"
    using one by (simp add: powr_le_iff le_log_iff [symmetric])
  then have lo: "2 ^ k \<le> \<bar>real_of_int n\<bar>"
    using l0 by (simp add: k_def powr_realpow [symmetric])
  have "real_of_int \<bar>n\<bar> < 2 powr (of_int \<lfloor>log 2 (real_of_int \<bar>n\<bar>)\<rfloor> + 1)"
    using one by (simp add: less_powr_iff)
  then have hi: "\<bar>real_of_int n\<bar> < 2 ^ Suc k"
    using l0 by (simp add: k_def powr_realpow [symmetric] powr_add)
  have "real_of_int \<bar>n\<bar> < real_of_int (2 ^ 53)"
    using assms by (simp only: of_int_less_iff)
  then have b: "\<bar>real_of_int n\<bar> < 2 ^ 53"
    by simp
  have "(2::real) ^ k < 2 ^ 53"
    using lo b by (rule le_less_trans)
  then have "k < 53"
    by (rule power_less_imp_less_exp [rotated]) simp
  then have k52: "k \<le> 52"
    by simp
  then have p: "(2::real) ^ 52 = 2 ^ (52 - k) * 2 ^ k"
    by (simp only: power_add [symmetric]) simp
  have "real_of_int n * 2 ^ 52 / 2 ^ k = of_int (n * 2 ^ (52 - k))"
    unfolding p by simp
  then have "roundTiesToEven (real_of_int n * 2 ^ 52 / 2 ^ k) = n * 2 ^ (52 - k)"
    by (simp only: roundTiesToEven_of_int)
  then have "round_double (of_int n) = of_int (n * 2 ^ (52 - k)) * 2 ^ k / 2 ^ 52"
    by (simp only: round_double_binade [OF lo hi])
  also have "\<dots> = of_int n * (2 ^ (52 - k) * 2 ^ k) / 2 ^ 52"
    by simp
  also have "\<dots> = of_int n"
    unfolding p [symmetric] by simp
  finally show ?thesis .
qed

lemma round_double_numeral:
  "numeral k < (2::int) ^ 53 \<Longrightarrow> round_double (numeral k) = numeral k"
  "numeral k < (2::int) ^ 53 \<Longrightarrow> round_double (- numeral k) = - numeral k"
  using round_double_of_int [of "numeral k"] round_double_of_int [of "- numeral k"] by simp_all

lemma round_double_tie:
  "round_double 10000000000000000 = 10000000000000000"
  "round_double 9999999999999999 = 10000000000000000"
  by (simp_all add: round_double_binade [where n = 53] roundTiesToEven_def)

lemma fold_round_double_exact:
  assumes "a \<in> \<int>" and "\<forall>x\<in>set xs. f x \<in> \<int>"
    and "\<bar>a\<bar> + sum_list (map (\<lambda>x. \<bar>f x\<bar>) xs) < 2 ^ 53"
  shows "fold (\<lambda>x s. round_double (s + f x)) xs a = a + sum_list (map f xs)"
  using assms
proof (induction xs arbitrary: a)
  case Nil
  then show ?case by simp
next
  case (Cons x xs)
  have "a + f x \<in> \<int>"
    using Cons.prems(1,2) by simp
  then obtain n where n: "a + f x = of_int n"
    by (auto elim: Ints_cases)
  have nonneg: "0 \<le> sum_list (map (\<lambda>x. \<bar>f x\<bar>) xs)"
    by (rule sum_list_nonneg) auto
  have "\<bar>a + f x\<bar> < 2 ^ 53"
    using Cons.prems(3) nonneg by simp
  then have "real_of_int \<bar>n\<bar> < real_of_int (2 ^ 53)"
    by (simp add: n)
  then have "\<bar>n\<bar> < 2 ^ 53"
    by (simp only: of_int_less_iff)
  then have r: "round_double (a + f x) = a + f x"
    by (simp add: n round_double_of_int)
  have "fold (\<lambda>x s. round_double (s + f x)) xs (a + f x) =
          (a + f x) + sum_list (map f xs)"
  proof (rule Cons.IH)
    show "a + f x \<in> \<int>" by fact
    show "\<forall>x\<in>set xs. f x \<in> \<int>" using Cons.prems(2) by simp
    show "\<bar>a + f x\<bar> + sum_list (map (\<lambda>x. \<bar>f x\<bar>) xs) < 2 ^ 53"
      using Cons.prems(3) by simp
  qed
  then show ?case
    by (simp add: r)
qed

section \<open>The result of the reconciler\<close>

lemma calculateXIRR_None_iff:
  "calculateXIRR cashFlows = None \<longleftrightarrow>
     length cashFlows < 2 \<or>
     (amount (last (sort_key date cashFlows)) < 0
      \<and> fold (\<lambda>flow sum. round_double (sum + amount flow)) (sort_key date cashFlows) 0 < 0)"
  by (simp add: calculateXIRR_def Let_def)

lemma calculateXIRR_Some:
  assumes "calculateXIRR cashFlows = Some res"
  defines "sortedFlows \<equiv> sort_key date cashFlows"
  defines "startDate \<equiv> date (hd sortedFlows)"
  defines "n \<equiv> calculateWithNewtonRaphson sortedFlows startDate 0.1"
  defines "b \<equiv> calculateWithBrent sortedFlows startDate (- 0.99) 10"
  shows "newtonRaphson res = n" and "brent res = b"
    and "xirr res = (if \<bar>finalNPV n\<bar> < \<bar>finalNPV b\<bar> then rate n else rate b)"
    and "difference res = \<bar>rate n - rate b\<bar>"
    and "hasDifference res = (\<bar>rate n - rate b\<bar> > 0.00001)"
    and "totalDays res = dateDiffInDays startDate (date (last sortedFlows))"
    and "annualized res = (totalDays res > 365)"
    and "simpleReturn res = (1 + xirr res) powr (totalDays res / 365.25) - 1"
    and "2 \<le> length cashFlows"
  using assms(1) unfolding sortedFlows_def startDate_def n_def b_def
  by (auto simp add: calculateXIRR_def Let_def split: if_splits)

lemma calculateXIRR_netCashFlow:
  assumes "calculateXIRR cashFlows = Some res"
  shows "netCashFlow res =
           fold (\<lambda>flow sum. round_double (sum + amount flow)) (sort_key date cashFlows) 0"
  using assms by (auto simp add: calculateXIRR_def Let_def split: if_splits)

lemma computed_net_sum_exact:
  assumes "\<forall>flow \<in> set cashFlows. amount flow \<in> \<int>"
    and "sum_list (map (\<lambda>flow. \<bar>amount flow\<bar>) cashFlows) < 2 ^ 53"
  shows "fold (\<lambda>flow sum. round_double (sum + amount flow)) (sort_key date cashFlows) 0
           = sum_list (map amount cashFlows)"
proof -
  have "fold (\<lambda>flow sum. round_double (sum + amount flow)) (sort_key date cashFlows) 0
          = 0 + sum_list (map amount (sort_key date cashFlows))"
  proof (rule fold_round_double_exact)
    show "(0::real) \<in> \<int>" by simp
    show "\<forall>flow \<in> set (sort_key date cashFlows). amount flow \<in> \<int>"
      using assms(1) by simp
    show "\<bar>0::real\<bar> + sum_list (map (\<lambda>flow. \<bar>amount flow\<bar>) (sort_key date cashFlows)) < 2 ^ 53"
      using assms(2) by (simp add: sum_list_sort_key)
  qed
  then show ?thesis
    by (simp add: sum_list_sort_key)
qed

lemma finalNPV_newton:
  "finalNPV (calculateWithNewtonRaphson cashFlows startDate g) =
     calculateNPV (rate (calculateWithNewtonRaphson cashFlows startDate g)) cashFlows startDate"
  by (simp add: calculateWithNewtonRaphson_def split: prod.splits)

lemma finalNPV_brent:
  "finalNPV (calculateWithBrent cashFlows startDate lo hi) =
     calculateNPV (rate (calculateWithBrent cashFlows startDate lo hi)) cashFlows startDate"
  by (simp add: calculateWithBrent_def split: prod.splits)

lemmas eval_defs = calculateNPV_def calculateDerivativeNPV_def day_count_values
  maxIterations_def precision_def power_divide Let_def

text \<open>
  Two sequences on which both solvers stop in their first iteration. In the first, the
  two flows cancel on one day, and the present value is zero at every rate. In the
  second, a ten-millionth is paid and a five-millionth is received four years of
  365.25 days later, and every present value is below the precision.
\<close>

lemma same_day_newton:
  "calculateWithNewtonRaphson
     [\<lparr>date = 0, amount = - 100, description = None\<rparr>,
      \<lparr>date = 0, amount = 100, description = None\<rparr>] 0 0.1
   = \<lparr>rate = 1 / 10, iterations = 1, method_name = ''Newton-Raphson'', converged = True,
      finalNPV = 0\<rparr>"
  by (simp add: calculateWithNewtonRaphson_def newton_loop.simps eval_defs)

lemma same_day_brent:
  "calculateWithBrent
     [\<lparr>date = 0, amount = - 100, description = None\<rparr>,
      \<lparr>date = 0, amount = 100, description = None\<rparr>] 0 (- (99 / 100)) 10
   = \<lparr>rate = 5, iterations = 1, method_name = ''Brent's Method'', converged = True,
      finalNPV = 0\<rparr>"
  by (simp add: calculateWithBrent_def brent_loop.simps brent_init_def brent_swap_def eval_defs)

lemma tiny_npv:
  "calculateNPV r
     [\<lparr>date = 0, amount = - (1 / 10000000), description = None\<rparr>,
      \<lparr>date = 126230400000, amount = 1 / 5000000, description = None\<rparr>] 0
   = - (1 / 10000000) / (1 + r) powr 0 + (1 / 5000000) / (1 + r) powr 4"
  by (simp add: eval_defs)

lemma tiny_newton:
  "calculateWithNewtonRaphson
     [\<lparr>date = 0, amount = - (1 / 10000000), description = None\<rparr>,
      \<lparr>date = 126230400000, amount = 1 / 5000000, description = None\<rparr>] 0 0.1
   = \<lparr>rate = 1 / 10, iterations = 1, method_name = ''Newton-Raphson'', converged = True,
      finalNPV = - (1 / 10000000) + (1 / 5000000) / (14641 / 10000)\<rparr>"
  by (simp add: calculateWithNewtonRaphson_def newton_loop.simps tiny_npv eval_defs)

lemma tiny_brent:
  "calculateWithBrent
     [\<lparr>date = 0, amount = - (1 / 10000000), description = None\<rparr>,
      \<lparr>date = 126230400000, amount = 1 / 5000000, description = None\<rparr>] 0 (- (99 / 100)) 10
   = \<lparr>rate = 10, iterations = 1, method_name = ''Brent's Method'', converged = True,
      finalNPV = - (1 / 10000000) + (1 / 5000000) / 14641\<rparr>"
  by (simp add: calculateWithBrent_def brent_loop.simps brent_init_def brent_swap_def
      tiny_npv eval_defs)

section \<open>Claims about the reconciler\<close>

text \<open>
  C2. For every sequence for which \<open>calculateXIRR\<close> returns a result, the chosen rate
  \<open>xirr\<close> is the rate of the Newton-Raphson result when the absolute value of its
  \<open>finalNPV\<close> is strictly smaller than that of the bracketing result, and the rate of
  the bracketing result otherwise (so a tie goes to the bracketing solver). The two
  results are those of the two solvers on the sorted sequence, and the \<open>finalNPV\<close> of each
  is the present value at its own final rate.
\<close>

theorem chosen_rate_has_smaller_residual:
  assumes "calculateXIRR cashFlows = Some res"
  shows "xirr res =
           (if \<bar>finalNPV (newtonRaphson res)\<bar> < \<bar>finalNPV (brent res)\<bar>
            then rate (newtonRaphson res) else rate (brent res))
         \<and> newtonRaphson res =
             calculateWithNewtonRaphson (sort_key date cashFlows)
               (date (hd (sort_key date cashFlows))) 0.1
         \<and> brent res =
             calculateWithBrent (sort_key date cashFlows)
               (date (hd (sort_key date cashFlows))) (- 0.99) 10
         \<and> finalNPV (newtonRaphson res) =
             calculateNPV (rate (newtonRaphson res)) (sort_key date cashFlows)
               (date (hd (sort_key date cashFlows)))
         \<and> finalNPV (brent res) =
             calculateNPV (rate (brent res)) (sort_key date cashFlows)
               (date (hd (sort_key date cashFlows)))"
  using calculateXIRR_Some [OF assms] finalNPV_newton finalNPV_brent by simp

theorem chosen_rate_has_smaller_residual_witness:
  "calculateXIRR
     [\<lparr>date = 0, amount = - (1 / 10000000), description = None\<rparr>,
      \<lparr>date = 126230400000, amount = 1 / 5000000, description = None\<rparr>] \<noteq> None
   \<and> \<bar>finalNPV (newtonRaphson (the (calculateXIRR
          [\<lparr>date = 0, amount = - (1 / 10000000), description = None\<rparr>,
           \<lparr>date = 126230400000, amount = 1 / 5000000, description = None\<rparr>])))\<bar>
       < \<bar>finalNPV (brent (the (calculateXIRR
          [\<lparr>date = 0, amount = - (1 / 10000000), description = None\<rparr>,
           \<lparr>date = 126230400000, amount = 1 / 5000000, description = None\<rparr>])))\<bar>
   \<and> xirr (the (calculateXIRR
          [\<lparr>date = 0, amount = - (1 / 10000000), description = None\<rparr>,
           \<lparr>date = 126230400000, amount = 1 / 5000000, description = None\<rparr>])) = 1 / 10
   \<and> rate (calculateWithNewtonRaphson
          [\<lparr>date = 0, amount = - (1 / 10000000), description = None\<rparr>,
           \<lparr>date = 126230400000, amount = 1 / 5000000, description = None\<rparr>] 0 0.1) = 1 / 10"
proof -
  let ?cfs = "[\<lparr>date = 0, amount = - (1 / 10000000), description = None\<rparr>,
               \<lparr>date = 126230400000, amount = 1 / 5000000, description = None\<rparr>]"
  have some: "calculateXIRR ?cfs \<noteq> None"
    by (simp add: calculateXIRR_None_iff)
  then have eq: "calculateXIRR ?cfs = Some (the (calculateXIRR ?cfs))"
    by simp
  show ?thesis
    using some chosen_rate_has_smaller_residual [OF eq]
    by (simp add: tiny_newton tiny_brent)
qed

text \<open>
  C3, as stated, fails: the guard tests the net sum that the program computes, adding the
  amounts in sorted order in double arithmetic, and not the sum of the amounts. In the
  sequence below the last flow is negative and the amounts add up to \<open>-1\<close>; the second
  partial sum, \<open>10^16 - 1\<close>, lies halfway between two doubles and is rounded to \<open>10^16\<close>, the
  computed net sum is \<open>0\<close>, and a result is returned.
\<close>

theorem guard_passes_a_negative_net_sum:
  "amount (last (sort_key date
       [\<lparr>date = 0, amount = 10000000000000000, description = None\<rparr>,
        \<lparr>date = 86400000, amount = - 1, description = None\<rparr>,
        \<lparr>date = 172800000, amount = - 10000000000000000, description = None\<rparr>])) < 0
   \<and> sum_list (map amount
       [\<lparr>date = 0, amount = 10000000000000000, description = None\<rparr>,
        \<lparr>date = 86400000, amount = - 1, description = None\<rparr>,
        \<lparr>date = 172800000, amount = - 10000000000000000, description = None\<rparr>]) = - 1
   \<and> calculateXIRR
       [\<lparr>date = 0, amount = 10000000000000000, description = None\<rparr>,
        \<lparr>date = 86400000, amount = - 1, description = None\<rparr>,
        \<lparr>date = 172800000, amount = - 10000000000000000, description = None\<rparr>] \<noteq> None
   \<and> netCashFlow (the (calculateXIRR
       [\<lparr>date = 0, amount = 10000000000000000, description = None\<rparr>,
        \<lparr>date = 86400000, amount = - 1, description = None\<rparr>,
        \<lparr>date = 172800000, amount = - 10000000000000000, description = None\<rparr>])) = 0"
proof -
  let ?cfs = "[\<lparr>date = 0, amount = 10000000000000000, description = None\<rparr>,
               \<lparr>date = 86400000, amount = - 1, description = None\<rparr>,
               \<lparr>date = 172800000, amount = - 10000000000000000, description = None\<rparr>]"
  have some: "calculateXIRR ?cfs \<noteq> None"
    by (simp add: calculateXIRR_None_iff round_double_numeral round_double_tie)
  then have eq: "calculateXIRR ?cfs = Some (the (calculateXIRR ?cfs))"
    by simp
  have "netCashFlow (the (calculateXIRR ?cfs)) = 0"
    using calculateXIRR_netCashFlow [OF eq]
    by (simp add: round_double_numeral round_double_tie)
  then show ?thesis
    using some by simp
qed

text \<open>
  C3, amended. \<open>calculateXIRR\<close> returns no result for every sequence whose last flow in the
  sorted order is negative and whose computed net sum is negative; since \<open>None\<close> is returned
  before the solvers are called, nothing of them reaches the caller. For every sequence of
  at least two flows where that condition does not hold it returns a result, which holds the
  result of each of the two solvers, run on the sorted sequence from its first date, and
  the computed net sum. The last flow is the last element of the stable sort by date; the
  computed net sum adds the amounts in sorted order and rounds every partial sum to a
  double. It is the sum of the amounts when these are integers whose absolute values add
  up to less than \<open>2^53\<close>.
\<close>

theorem degenerate_input_guard:
  "(amount (last (sort_key date cashFlows)) < 0
      \<and> fold (\<lambda>flow sum. round_double (sum + amount flow)) (sort_key date cashFlows) 0 < 0
      \<longrightarrow> calculateXIRR cashFlows = None)
   \<and> (2 \<le> length cashFlows
        \<and> \<not> (amount (last (sort_key date cashFlows)) < 0
             \<and> fold (\<lambda>flow sum. round_double (sum + amount flow))
                  (sort_key date cashFlows) 0 < 0)
      \<longrightarrow> map_option newtonRaphson (calculateXIRR cashFlows) =
            Some (calculateWithNewtonRaphson (sort_key date cashFlows)
                    (date (hd (sort_key date cashFlows))) 0.1)
          \<and> map_option brent (calculateXIRR cashFlows) =
            Some (calculateWithBrent (sort_key date cashFlows)
                    (date (hd (sort_key date cashFlows))) (- 0.99) 10)
          \<and> map_option netCashFlow (calculateXIRR cashFlows) =
            Some (fold (\<lambda>flow sum. round_double (sum + amount flow))
                    (sort_key date cashFlows) 0))
   \<and> ((\<forall>flow \<in> set cashFlows. amount flow \<in> \<int>)
        \<and> sum_list (map (\<lambda>flow. \<bar>amount flow\<bar>) cashFlows) < 2 ^ 53
      \<longrightarrow> fold (\<lambda>flow sum. round_double (sum + amount flow)) (sort_key date cashFlows) 0
            = sum_list (map amount cashFlows))"
proof (intro conjI impI)
  assume "amount (last (sort_key date cashFlows)) < 0
    \<and> fold (\<lambda>flow sum. round_double (sum + amount flow)) (sort_key date cashFlows) 0 < 0"
  then show "calculateXIRR cashFlows = None"
    by (simp add: calculateXIRR_None_iff)
next
  assume a: "2 \<le> length cashFlows
    \<and> \<not> (amount (last (sort_key date cashFlows)) < 0
         \<and> fold (\<lambda>flow sum. round_double (sum + amount flow)) (sort_key date cashFlows) 0 < 0)"
  then have "calculateXIRR cashFlows \<noteq> None"
    unfolding calculateXIRR_None_iff by simp
  then obtain res where res: "calculateXIRR cashFlows = Some res"
    by blast
  show "map_option newtonRaphson (calculateXIRR cashFlows) =
          Some (calculateWithNewtonRaphson (sort_key date cashFlows)
                  (date (hd (sort_key date cashFlows))) 0.1)"
    using calculateXIRR_Some(1) [OF res] res by simp
  show "map_option brent (calculateXIRR cashFlows) =
          Some (calculateWithBrent (sort_key date cashFlows)
                  (date (hd (sort_key date cashFlows))) (- 0.99) 10)"
    using calculateXIRR_Some(2) [OF res] res by simp
  show "map_option netCashFlow (calculateXIRR cashFlows) =
          Some (fold (\<lambda>flow sum. round_double (sum + amount flow))
                  (sort_key date cashFlows) 0)"
    using calculateXIRR_netCashFlow [OF res] res by simp
next
  assume a: "(\<forall>flow \<in> set cashFlows. amount flow \<in> \<int>)
    \<and> sum_list (map (\<lambda>flow. \<bar>amount flow\<bar>) cashFlows) < 2 ^ 53"
  show "fold (\<lambda>flow sum. round_double (sum + amount flow)) (sort_key date cashFlows) 0
          = sum_list (map amount cashFlows)"
    using a by (intro computed_net_sum_exact) simp_all
qed

theorem degenerate_input_guard_witness:
  "amount (last (sort_key date
       [\<lparr>date = 0, amount = - 100000, description = None\<rparr>,
        \<lparr>date = 86400000, amount = - 50000, description = None\<rparr>])) < 0
   \<and> fold (\<lambda>flow sum. round_double (sum + amount flow)) (sort_key date
       [\<lparr>date = 0, amount = - 100000, description = None\<rparr>,
        \<lparr>date = 86400000, amount = - 50000, description = None\<rparr>]) 0 < 0
   \<and> calculateXIRR
       [\<lparr>date = 0, amount = - 100000, description = None\<rparr>,
        \<lparr>date = 86400000, amount = - 50000, description = None\<rparr>] = None
   \<and> amount \<lparr>date = 0, amount = - 100000, description = None\<rparr> \<in> \<int>
   \<and> amount \<lparr>date = 86400000, amount = - 50000, description = None\<rparr> \<in> \<int>
   \<and> sum_list (map (\<lambda>flow. \<bar>amount flow\<bar>)
       [\<lparr>date = 0, amount = - 100000, description = None\<rparr>,
        \<lparr>date = 86400000, amount = - 50000, description = None\<rparr>]) < 2 ^ 53
   \<and> fold (\<lambda>flow sum. round_double (sum + amount flow)) (sort_key date
       [\<lparr>date = 0, amount = - 100000, description = None\<rparr>,
        \<lparr>date = 86400000, amount = - 50000, description = None\<rparr>]) 0
      = sum_list (map amount
       [\<lparr>date = 0, amount = - 100000, description = None\<rparr>,
        \<lparr>date = 86400000, amount = - 50000, description = None\<rparr>])
   \<and> (2::nat) \<le> length
       [\<lparr>date = 0, amount = - 100, description = None\<rparr>,
        \<lparr>date = 0, amount = 100, description = None\<rparr>]
   \<and> 0 \<le> amount (last (sort_key date
       [\<lparr>date = 0, amount = - 100, description = None\<rparr>,
        \<lparr>date = 0, amount = 100, description = None\<rparr>]))
   \<and> map_option newtonRaphson (calculateXIRR
       [\<lparr>date = 0, amount = - 100, description = None\<rparr>,
        \<lparr>date = 0, amount = 100, description = None\<rparr>]) =
      Some \<lparr>rate = 1 / 10, iterations = 1, method_name = ''Newton-Raphson'',
            converged = True, finalNPV = 0\<rparr>
   \<and> map_option brent (calculateXIRR
       [\<lparr>date = 0, amount = - 100, description = None\<rparr>,
        \<lparr>date = 0, amount = 100, description = None\<rparr>]) =
      Some \<lparr>rate = 5, iterations = 1, method_name = ''Brent's Method'',
            converged = True, finalNPV = 0\<rparr>
   \<and> map_option netCashFlow (calculateXIRR
       [\<lparr>date = 0, amount = - 100, description = None\<rparr>,
        \<lparr>date = 0, amount = 100, description = None\<rparr>]) = Some 0"
  using degenerate_input_guard
          [of "[\<lparr>date = 0, amount = - 100000, description = None\<rparr>,
                \<lparr>date = 86400000, amount = - 50000, description = None\<rparr>]"]
        degenerate_input_guard
          [of "[\<lparr>date = 0, amount = - 100, description = None\<rparr>,
                \<lparr>date = 0, amount = 100, description = None\<rparr>]"]
  by (simp add: same_day_newton same_day_brent round_double_numeral)




text \<open>
  C5. For every sequence for which \<open>calculateXIRR\<close> returns a result, \<open>difference\<close> is the
  absolute difference between the rate of the Newton-Raphson solver and the rate of the
  bracketing solver, and \<open>hasDifference\<close> is true exactly when that difference is strictly
  greater than 0.00001.
\<close>

theorem disagreement_flag:
  assumes "calculateXIRR cashFlows = Some res"
  shows "difference res =
           \<bar>rate (calculateWithNewtonRaphson (sort_key date cashFlows)
                    (date (hd (sort_key date cashFlows))) 0.1)
            - rate (calculateWithBrent (sort_key date cashFlows)
                    (date (hd (sort_key date cashFlows))) (- 0.99) 10)\<bar>
         \<and> difference res = \<bar>rate (newtonRaphson res) - rate (brent res)\<bar>
         \<and> hasDifference res = (0.00001 < difference res)"
  using calculateXIRR_Some [OF assms] by simp

theorem disagreement_flag_witness:
  "calculateXIRR
     [\<lparr>date = 0, amount = - 100, description = None\<rparr>,
      \<lparr>date = 0, amount = 100, description = None\<rparr>] \<noteq> None
   \<and> difference (the (calculateXIRR
       [\<lparr>date = 0, amount = - 100, description = None\<rparr>,
        \<lparr>date = 0, amount = 100, description = None\<rparr>])) = 49 / 10
   \<and> hasDifference (the (calculateXIRR
       [\<lparr>date = 0, amount = - 100, description = None\<rparr>,
        \<lparr>date = 0, amount = 100, description = None\<rparr>]))"
proof -
  let ?cfs = "[\<lparr>date = 0, amount = - 100, description = None\<rparr>,
               \<lparr>date = 0, amount = 100, description = None\<rparr>]"
  have some: "calculateXIRR ?cfs \<noteq> None"
    by (simp add: calculateXIRR_None_iff)
  then have eq: "calculateXIRR ?cfs = Some (the (calculateXIRR ?cfs))"
    by simp
  show ?thesis
    using some disagreement_flag [OF eq]
    by (simp add: same_day_newton same_day_brent)
qed

section \<open>Order of the input\<close>

text \<open>
  C10, as stated, fails: the sort is by date alone and stable, so flows that share a date
  keep their input order, and the first and last flow of the sorted copy depend on it.
  Here the two flows of the second day are swapped: with the negative flow last the guard
  returns \<open>None\<close>, with the positive flow last a result is returned.
\<close>

theorem permutation_changes_result:
  "mset [\<lparr>date = 0, amount = - 100, description = None\<rparr>,
         \<lparr>date = 86400000, amount = - 60, description = None\<rparr>,
         \<lparr>date = 86400000, amount = 50, description = None\<rparr>]
   = mset [\<lparr>date = 0, amount = - 100, description = None\<rparr>,
           \<lparr>date = 86400000, amount = 50, description = None\<rparr>,
           \<lparr>date = 86400000, amount = - 60, description = None\<rparr>]
   \<and> calculateXIRR
         [\<lparr>date = 0, amount = - 100, description = None\<rparr>,
          \<lparr>date = 86400000, amount = 50, description = None\<rparr>,
          \<lparr>date = 86400000, amount = - 60, description = None\<rparr>] = None
   \<and> calculateXIRR
         [\<lparr>date = 0, amount = - 100, description = None\<rparr>,
          \<lparr>date = 86400000, amount = - 60, description = None\<rparr>,
          \<lparr>date = 86400000, amount = 50, description = None\<rparr>] \<noteq> None"
  by (simp add: calculateXIRR_None_iff round_double_numeral)

text \<open>
  C10, amended. For every input sequence whose flows have pairwise distinct dates, and
  every permutation of it, \<open>calculateXIRR\<close> returns the same result for both.
\<close>

theorem permutation_invariant_for_distinct_dates:
  assumes "distinct (map date cashFlows)" and "mset permuted = mset cashFlows"
  shows "calculateXIRR permuted = calculateXIRR cashFlows"
proof -
  have "inj_on date (set cashFlows)"
    using assms(1) by (simp add: distinct_map)
  then have "sort_key date cashFlows = sort_key date permuted"
    using assms(2) by (intro sort_key_eq_sort_key) simp_all
  moreover have "length permuted = length cashFlows"
    using assms(2) by (metis size_mset)
  ultimately show ?thesis
    by (simp add: calculateXIRR_def)
qed

theorem permutation_invariant_for_distinct_dates_witness:
  "distinct (map date
     [\<lparr>date = 0, amount = - 100000, description = None\<rparr>,
      \<lparr>date = 86400000, amount = 5000, description = None\<rparr>,
      \<lparr>date = 172800000, amount = 115000, description = None\<rparr>])
   \<and> mset [\<lparr>date = 172800000, amount = 115000, description = None\<rparr>,
           \<lparr>date = 0, amount = - 100000, description = None\<rparr>,
           \<lparr>date = 86400000, amount = 5000, description = None\<rparr>]
     = mset [\<lparr>date = 0, amount = - 100000, description = None\<rparr>,
             \<lparr>date = 86400000, amount = 5000, description = None\<rparr>,
             \<lparr>date = 172800000, amount = 115000, description = None\<rparr>]
   \<and> calculateXIRR
         [\<lparr>date = 172800000, amount = 115000, description = None\<rparr>,
          \<lparr>date = 0, amount = - 100000, description = None\<rparr>,
          \<lparr>date = 86400000, amount = 5000, description = None\<rparr>]
     = calculateXIRR
         [\<lparr>date = 0, amount = - 100000, description = None\<rparr>,
          \<lparr>date = 86400000, amount = 5000, description = None\<rparr>,
          \<lparr>date = 172800000, amount = 115000, description = None\<rparr>]
   \<and> calculateXIRR
         [\<lparr>date = 0, amount = - 100000, description = None\<rparr>,
          \<lparr>date = 86400000, amount = 5000, description = None\<rparr>,
          \<lparr>date = 172800000, amount = 115000, description = None\<rparr>] \<noteq> None"
proof -
  let ?xs = "[\<lparr>date = 0, amount = - 100000, description = None\<rparr>,
              \<lparr>date = 86400000, amount = 5000, description = None\<rparr>,
              \<lparr>date = 172800000, amount = 115000, description = None\<rparr>]"
  let ?ys = "[\<lparr>date = 172800000, amount = 115000, description = None\<rparr>,
              \<lparr>date = 0, amount = - 100000, description = None\<rparr>,
              \<lparr>date = 86400000, amount = 5000, description = None\<rparr>]"
  have d: "distinct (map date ?xs)" by simp
  have m: "mset ?ys = mset ?xs" by simp
  have s: "calculateXIRR ?xs \<noteq> None"
    by (simp add: calculateXIRR_None_iff)
  show ?thesis
    using d m s permutation_invariant_for_distinct_dates [OF d m] by simp
qed

section \<open>Claims about the window builder\<close>

text \<open>
  C9, as stated, fails: the first test of \<open>buildPeriodCashFlows\<close> also returns the empty
  sequence when the string of the start date or of the end date is empty, whatever the
  values are. Here both values are present and the start date is not.
\<close>

theorem window_builder_needs_dates:
  "''100000'' \<noteq> [] \<and> ''50000'' \<noteq> []
   \<and> buildPeriodCashFlows sample_parseFloat sample_newDate []
        [] ''2024-12-31'' ''100000'' ''50000'' = []"
  by (simp add: buildPeriodCashFlows_def)

text \<open>
  C9, amended. The dates and the values of a period are strings of the form, absent when
  empty. For every period with both dates and both values present,
  \<open>buildPeriodCashFlows\<close> returns the stable sort by date of: the flow
  \<open>- \<bar>startValue\<bar>\<close> at the start date, the filled-in flows of the form whose date is
  strictly after the start date and strictly before the end date, and the flow
  \<open>endValue\<close> at the end date. The result is sorted by date and has exactly these flows
  as elements, each as often as it was supplied. If either value or either date is
  absent, the result is the empty sequence.
\<close>

theorem window_builder_flows:
  "(startValue = [] \<or> endValue = [] \<or> startDateStr = [] \<or> endDateStr = [] \<longrightarrow>
      buildPeriodCashFlows parseFloat newDate periodFlows
        startDateStr endDateStr startValue endValue = [])
   \<and> (startValue \<noteq> [] \<and> endValue \<noteq> [] \<and> startDateStr \<noteq> [] \<and> endDateStr \<noteq> [] \<longrightarrow>
      buildPeriodCashFlows parseFloat newDate periodFlows
        startDateStr endDateStr startValue endValue =
      sort_key date
        (\<lparr>date = newDate startDateStr, amount = - \<bar>parseFloat startValue\<bar>,
          description = Some ''Period Start Value''\<rparr>
         # filter (\<lambda>f. newDate startDateStr < date f \<and> date f < newDate endDateStr)
             (parsedPeriodFlows parseFloat newDate periodFlows)
         @ [\<lparr>date = newDate endDateStr, amount = parseFloat endValue,
              description = Some ''Period End Value''\<rparr>])
      \<and> sorted (map date (buildPeriodCashFlows parseFloat newDate periodFlows
            startDateStr endDateStr startValue endValue))
      \<and> mset (buildPeriodCashFlows parseFloat newDate periodFlows
            startDateStr endDateStr startValue endValue) =
          {#\<lparr>date = newDate startDateStr, amount = - \<bar>parseFloat startValue\<bar>,
             description = Some ''Period Start Value''\<rparr>#}
          + filter_mset (\<lambda>f. newDate startDateStr < date f \<and> date f < newDate endDateStr)
              (mset (parsedPeriodFlows parseFloat newDate periodFlows))
          + {#\<lparr>date = newDate endDateStr, amount = parseFloat endValue,
               description = Some ''Period End Value''\<rparr>#})"
proof (intro conjI impI)
  assume "startValue = [] \<or> endValue = [] \<or> startDateStr = [] \<or> endDateStr = []"
  then show "buildPeriodCashFlows parseFloat newDate periodFlows
               startDateStr endDateStr startValue endValue = []"
    by (auto simp add: buildPeriodCashFlows_def findStartValueForDate_def)
next
  assume a: "startValue \<noteq> [] \<and> endValue \<noteq> [] \<and> startDateStr \<noteq> [] \<and> endDateStr \<noteq> []"
  then show eq: "buildPeriodCashFlows parseFloat newDate periodFlows
        startDateStr endDateStr startValue endValue =
      sort_key date
        (\<lparr>date = newDate startDateStr, amount = - \<bar>parseFloat startValue\<bar>,
          description = Some ''Period Start Value''\<rparr>
         # filter (\<lambda>f. newDate startDateStr < date f \<and> date f < newDate endDateStr)
             (parsedPeriodFlows parseFloat newDate periodFlows)
         @ [\<lparr>date = newDate endDateStr, amount = parseFloat endValue,
              description = Some ''Period End Value''\<rparr>])"
    by (simp add: buildPeriodCashFlows_def Let_def)
  show "sorted (map date (buildPeriodCashFlows parseFloat newDate periodFlows
            startDateStr endDateStr startValue endValue))"
    unfolding eq by (rule sorted_sort_key)
  show "mset (buildPeriodCashFlows parseFloat newDate periodFlows
            startDateStr endDateStr startValue endValue) =
          {#\<lparr>date = newDate startDateStr, amount = - \<bar>parseFloat startValue\<bar>,
             description = Some ''Period Start Value''\<rparr>#}
          + filter_mset (\<lambda>f. newDate startDateStr < date f \<and> date f < newDate endDateStr)
              (mset (parsedPeriodFlows parseFloat newDate periodFlows))
          + {#\<lparr>date = newDate endDateStr, amount = parseFloat endValue,
               description = Some ''Period End Value''\<rparr>#}"
    unfolding eq by simp
qed

theorem window_builder_flows_witness:
  "buildPeriodCashFlows sample_parseFloat sample_newDate
     [\<lparr>input_id = ''1'', input_date = ''2024-01-01'', input_amount = ''5000'',
       input_description = ''on the start date''\<rparr>,
      \<lparr>input_id = ''2'', input_date = ''2024-09-30'', input_amount = ''-10000'',
       input_description = ''withdrawal''\<rparr>,
      \<lparr>input_id = ''3'', input_date = ''2024-06-15'', input_amount = ''5000'',
       input_description = ''deposit''\<rparr>,
      \<lparr>input_id = ''4'', input_date = ''2024-06-15'', input_amount = '''',
       input_description = ''no amount''\<rparr>,
      \<lparr>input_id = ''5'', input_date = ''2024-12-31'', input_amount = ''5000'',
       input_description = ''on the end date''\<rparr>]
     ''2024-01-01'' ''2024-12-31'' ''100000'' ''50000''
   = [\<lparr>date = 1704067200000, amount = - 100000, description = Some ''Period Start Value''\<rparr>,
      \<lparr>date = 1718409600000, amount = 5000, description = Some ''deposit''\<rparr>,
      \<lparr>date = 1727654400000, amount = - 10000, description = Some ''withdrawal''\<rparr>,
      \<lparr>date = 1735603200000, amount = 50000, description = Some ''Period End Value''\<rparr>]
   \<and> buildPeriodCashFlows sample_parseFloat sample_newDate []
       ''2024-01-01'' ''2024-12-31'' '''' ''50000'' = []
   \<and> buildPeriodCashFlows sample_parseFloat sample_newDate []
       ''2024-01-01'' ''2024-12-31'' ''100000'' '''' = []"
proof -
  let ?pfs = "[\<lparr>input_id = ''1'', input_date = ''2024-01-01'', input_amount = ''5000'',
       input_description = ''on the start date''\<rparr>,
      \<lparr>input_id = ''2'', input_date = ''2024-09-30'', input_amount = ''-10000'',
       input_description = ''withdrawal''\<rparr>,
      \<lparr>input_id = ''3'', input_date = ''2024-06-15'', input_amount = ''5000'',
       input_description = ''deposit''\<rparr>,
      \<lparr>input_id = ''4'', input_date = ''2024-06-15'', input_amount = '''',
       input_description = ''no amount''\<rparr>,
      \<lparr>input_id = ''5'', input_date = ''2024-12-31'', input_amount = ''5000'',
       input_description = ''on the end date''\<rparr>]"
  note w = window_builder_flows [of "''100000''" "''50000''" "''2024-01-01''" "''2024-12-31''"
      sample_parseFloat sample_newDate]
  have 1: "buildPeriodCashFlows sample_parseFloat sample_newDate ?pfs
     ''2024-01-01'' ''2024-12-31'' ''100000'' ''50000''
   = [\<lparr>date = 1704067200000, amount = - 100000, description = Some ''Period Start Value''\<rparr>,
      \<lparr>date = 1718409600000, amount = 5000, description = Some ''deposit''\<rparr>,
      \<lparr>date = 1727654400000, amount = - 10000, description = Some ''withdrawal''\<rparr>,
      \<lparr>date = 1735603200000, amount = 50000, description = Some ''Period End Value''\<rparr>]"
    using w [of ?pfs]
    by (simp add: parsedPeriodFlows_def sample_parseFloat_def sample_newDate_def)
  have 2: "buildPeriodCashFlows sample_parseFloat sample_newDate []
       ''2024-01-01'' ''2024-12-31'' '''' ''50000'' = []"
    using window_builder_flows [of "''''" "''50000''" "''2024-01-01''" "''2024-12-31''"
      sample_parseFloat sample_newDate "[]"]
    by simp
  have 3: "buildPeriodCashFlows sample_parseFloat sample_newDate []
       ''2024-01-01'' ''2024-12-31'' ''100000'' '''' = []"
    using window_builder_flows [of "''100000''" "''''" "''2024-01-01''" "''2024-12-31''"
      sample_parseFloat sample_newDate "[]"]
    by simp
  show ?thesis using 1 2 3 by simp
qed

section \<open>Claims about the bracketing solver\<close>






section \<open>Claims about the Newton-Raphson solver\<close>




lemma newton_loop_counter:
  "its \<le> maxIterations \<Longrightarrow>
   its \<le> fst (snd (newton_loop cashFlows startDate r its)) \<and>
   fst (snd (newton_loop cashFlows startDate r its)) \<le> maxIterations"
proof (induction cashFlows startDate r its rule: newton_loop.induct)
  case (1 cashFlows startDate r its)
  let ?npv = "calculateNPV r cashFlows startDate"
  let ?dnpv = "calculateDerivativeNPV r cashFlows startDate"
  show ?case
  proof (cases "its < maxIterations \<and> \<not> \<bar>?npv\<bar> < precision \<and> ?dnpv \<noteq> 0")
    case True
    then have "its + 1 \<le> fst (snd (newton_loop cashFlows startDate
                 (newton_update r ?npv ?dnpv) (its + 1))) \<and>
               fst (snd (newton_loop cashFlows startDate
                 (newton_update r ?npv ?dnpv) (its + 1))) \<le> maxIterations"
      using "1.IH" [OF _ refl _ refl] by simp
    with True show ?thesis
      unfolding newton_loop.simps [of cashFlows startDate r its]
      by (simp add: Let_def)
  next
    case False
    with "1.prems" show ?thesis
      unfolding newton_loop.simps [of cashFlows startDate r its]
      by (auto simp: Let_def)
  qed
qed

lemma newton_loop_converged:
  "snd (snd (newton_loop cashFlows startDate r its)) \<Longrightarrow>
   \<bar>calculateNPV (fst (newton_loop cashFlows startDate r its)) cashFlows startDate\<bar> < precision"
proof (induction cashFlows startDate r its rule: newton_loop.induct)
  case (1 cashFlows startDate r its)
  from "1.prems" show ?case
    unfolding newton_loop.simps [of cashFlows startDate r its]
    using "1.IH"
    by (auto simp: Let_def split: if_splits)
qed

lemma stuck_npv:
  "calculateNPV r
     [\<lparr>date = 0, amount = - 1000000000, description = None\<rparr>,
      \<lparr>date = 126230400000, amount = 1, description = None\<rparr>] 0
   = - 1000000000 / (1 + r) powr 0 + 1 / (1 + r) powr 4"
  by (simp add: eval_defs)

lemma stuck_dnpv:
  "calculateDerivativeNPV r
     [\<lparr>date = 0, amount = - 1000000000, description = None\<rparr>,
      \<lparr>date = 126230400000, amount = 1, description = None\<rparr>] 0
   = - 4 / (1 + r) powr 5"
  by (simp add: eval_defs)

lemma stuck_first_step:
  "newton_loop
     [\<lparr>date = 0, amount = - 1000000000, description = None\<rparr>,
      \<lparr>date = 126230400000, amount = 1, description = None\<rparr>] 0 (1 / 10) 0
   = newton_loop
     [\<lparr>date = 0, amount = - 1000000000, description = None\<rparr>,
      \<lparr>date = 126230400000, amount = 1, description = None\<rparr>] 0 (- (99 / 100)) 1"
  by (subst newton_loop.simps)
     (simp add: stuck_npv stuck_dnpv newton_update_def maxIterations_def precision_def
        power_divide Let_def)

lemma stuck_loop:
  "its \<le> 100 \<Longrightarrow>
   newton_loop
     [\<lparr>date = 0, amount = - 1000000000, description = None\<rparr>,
      \<lparr>date = 126230400000, amount = 1, description = None\<rparr>] 0 (- (99 / 100)) its
   = (- (99 / 100), 100, False)"
proof (induction "100 - its" arbitrary: its)
  case 0
  then have "its = 100" by simp
  then show ?case
    by (subst newton_loop.simps) (simp add: maxIterations_def)
next
  case (Suc k)
  then have lt: "its < 100" and k: "k = 100 - (its + 1)" and le: "its + 1 \<le> 100"
    by simp_all
  have step: "newton_loop
     [\<lparr>date = 0, amount = - 1000000000, description = None\<rparr>,
      \<lparr>date = 126230400000, amount = 1, description = None\<rparr>] 0 (- (99 / 100)) (Suc its)
   = (- (99 / 100), 100, False)"
    using Suc.hyps(1) [OF k le] by simp
  show ?case
    by (subst newton_loop.simps)
       (simp add: lt step stuck_npv stuck_dnpv newton_update_def
          maxIterations_def precision_def power_divide Let_def)
qed

lemma stuck_rates_first:
  "newton_rates
     [\<lparr>date = 0, amount = - 1000000000, description = None\<rparr>,
      \<lparr>date = 126230400000, amount = 1, description = None\<rparr>] 0 (1 / 10) 0
   = 1 / 10 # newton_rates
     [\<lparr>date = 0, amount = - 1000000000, description = None\<rparr>,
      \<lparr>date = 126230400000, amount = 1, description = None\<rparr>] 0 (- (99 / 100)) 1"
  by (subst newton_rates.simps)
     (simp add: stuck_npv stuck_dnpv newton_update_def maxIterations_def precision_def
        power_divide Let_def)

lemma stuck_rates:
  "its \<le> 100 \<Longrightarrow>
   newton_rates
     [\<lparr>date = 0, amount = - 1000000000, description = None\<rparr>,
      \<lparr>date = 126230400000, amount = 1, description = None\<rparr>] 0 (- (99 / 100)) its
   = replicate (100 - its) (- (99 / 100))"
proof (induction "100 - its" arbitrary: its)
  case 0
  then have "its = 100" by simp
  then show ?case
    by (subst newton_rates.simps) (simp add: maxIterations_def)
next
  case (Suc k)
  then have lt: "its < 100" and k: "k = 100 - (its + 1)" and le: "its + 1 \<le> 100"
    by simp_all
  have r: "replicate (100 - its) (- (99 / 100) :: real)
           = - (99 / 100) # replicate (100 - (its + 1)) (- (99 / 100))"
    using lt by (metis Suc.hyps(2) k replicate_Suc)
  have step: "newton_rates
     [\<lparr>date = 0, amount = - 1000000000, description = None\<rparr>,
      \<lparr>date = 126230400000, amount = 1, description = None\<rparr>] 0 (- (99 / 100)) (Suc its)
   = replicate (100 - (its + 1)) (- (99 / 100))"
    using Suc.hyps(1) [OF k le] by simp
  show ?case
    unfolding r
    by (subst newton_rates.simps)
       (simp add: lt step stuck_npv stuck_dnpv newton_update_def
          maxIterations_def precision_def power_divide Let_def del: replicate_Suc)
qed

lemma newton_loop_passes:
  "its \<le> maxIterations \<Longrightarrow>
   (fst (snd (newton_loop cashFlows startDate r its)) + 1
      = its + length (newton_rates cashFlows startDate r its)
    \<and> fst (snd (newton_loop cashFlows startDate r its)) < maxIterations)
   \<or> (fst (snd (newton_loop cashFlows startDate r its)) = maxIterations
      \<and> length (newton_rates cashFlows startDate r its) = maxIterations - its
      \<and> \<not> snd (snd (newton_loop cashFlows startDate r its)))"
proof (induction cashFlows startDate r its rule: newton_loop.induct)
  case (1 cashFlows startDate r its)
  let ?npv = "calculateNPV r cashFlows startDate"
  let ?dnpv = "calculateDerivativeNPV r cashFlows startDate"
  show ?case
  proof (cases "its < maxIterations \<and> \<not> \<bar>?npv\<bar> < precision \<and> ?dnpv \<noteq> 0")
    case True
    note ih = "1.IH" [OF _ refl _ refl]
    from True ih show ?thesis
      unfolding newton_loop.simps [of cashFlows startDate r its]
        newton_rates.simps [of cashFlows startDate r its]
      by (auto simp: Let_def)
  next
    case False
    with "1.prems" show ?thesis
      unfolding newton_loop.simps [of cashFlows startDate r its]
        newton_rates.simps [of cashFlows startDate r its]
      by (auto simp: Let_def)
  qed
qed




lemma stuck_newton:
  "calculateWithNewtonRaphson
     [\<lparr>date = 0, amount = - 1000000000, description = None\<rparr>,
      \<lparr>date = 126230400000, amount = 1, description = None\<rparr>] 0 (1 / 10)
   = \<lparr>rate = - (99 / 100), iterations = 101, method_name = ''Newton-Raphson'',
      converged = False, finalNPV = - 900000000\<rparr>"
  by (simp add: calculateWithNewtonRaphson_def stuck_first_step stuck_loop stuck_npv
      power_divide)

text \<open>
  C7. The loop of the Newton-Raphson solver makes at most 100 passes, sets the
  convergence flag exactly in a pass that finds the absolute present value below the
  precision, and stops without it on a derivative of zero (\<open>newton_loop_counter\<close>,
  \<open>newton_loop_converged\<close>, \<open>newton_loop_passes\<close>): when the loop is left by
  \<^verbatim>\<open>break\<close>, the reported \<open>iterations\<close> is the number of passes made. When the loop
  runs out of passes, the counter stands at 100 and the solver reports \<open>100 + 1\<close>: the
  reported count is 101, after 100 passes. It happens on the sequence below, where a
  thousand million is paid and one is received four years later: every step from
  \<open>-0.99\<close> is clamped back to \<open>-0.99\<close>.
\<close>

theorem newton_reports_101_iterations:
  "calculateWithNewtonRaphson
     [\<lparr>date = 0, amount = - 1000000000, description = None\<rparr>,
      \<lparr>date = 126230400000, amount = 1, description = None\<rparr>] 0 0.1
   = \<lparr>rate = - (99 / 100), iterations = 101, method_name = ''Newton-Raphson'',
      converged = False, finalNPV = - 900000000\<rparr>
   \<and> length (newton_rates
       [\<lparr>date = 0, amount = - 1000000000, description = None\<rparr>,
        \<lparr>date = 126230400000, amount = 1, description = None\<rparr>] 0 0.1 0) = 100
   \<and> map_option newtonRaphson (calculateXIRR
       [\<lparr>date = 0, amount = - 1000000000, description = None\<rparr>,
        \<lparr>date = 126230400000, amount = 1, description = None\<rparr>])
     = Some \<lparr>rate = - (99 / 100), iterations = 101, method_name = ''Newton-Raphson'',
             converged = False, finalNPV = - 900000000\<rparr>"
proof -
  let ?cfs = "[\<lparr>date = 0, amount = - 1000000000, description = None\<rparr>,
               \<lparr>date = 126230400000, amount = 1, description = None\<rparr>]"
  note n = stuck_newton
  have l: "length (newton_rates ?cfs 0 (1 / 10) 0) = 100"
    by (simp add: stuck_rates_first stuck_rates)
  have "calculateXIRR ?cfs \<noteq> None"
    by (simp add: calculateXIRR_None_iff)
  then obtain res where res: "calculateXIRR ?cfs = Some res"
    by blast
  have "newtonRaphson res = calculateWithNewtonRaphson ?cfs 0 (1 / 10)"
    using calculateXIRR_Some(1) [OF res] by simp
  with res n have x: "map_option newtonRaphson (calculateXIRR ?cfs)
     = Some \<lparr>rate = - (99 / 100), iterations = 101, method_name = ''Newton-Raphson'',
             converged = False, finalNPV = - 900000000\<rparr>"
    by simp
  show ?thesis
    using n l x by simp
qed

section \<open>Divisions of the bracketing solver\<close>

text \<open>
  A division by zero is a number in HOL and an infinity in the source. The model makes
  none: a present value divides by a power of \<open>1 + rate\<close>, which is positive; the
  Newton-Raphson step divides by the derivative after the test that it is not zero; and in
  the bracketing solver, \<^verbatim>\<open>fa\<close> is not zero in the interpolation branch, \<^verbatim>\<open>fc\<close> is not
  zero once the convergence test has failed, and an accepted step has a denominator
  \<^verbatim>\<open>q\<close> that is not zero.
\<close>

lemma discount_factor_positive: "- 1 < (r::real) \<Longrightarrow> 0 < (1 + r) powr years"
  by simp

lemma brent_swap_ordered: "\<bar>f_b (brent_swap s)\<bar> \<le> \<bar>f_c (brent_swap s)\<bar>"
  by (simp add: brent_swap_def)

lemma interpolation_fa_nonzero:
  "\<not> (\<bar>step_e s\<bar> < tol \<or> \<bar>f_a s\<bar> \<le> \<bar>f_b s\<bar>) \<Longrightarrow> f_a s \<noteq> 0"
  by auto

lemma interpolation_fc_nonzero:
  "\<not> (\<bar>m\<bar> \<le> tol \<or> \<bar>f_b (brent_swap s)\<bar> < precision) \<Longrightarrow> f_c (brent_swap s) \<noteq> 0"
  using brent_swap_ordered [of s] by (auto simp: precision_def)

lemma accepted_step_denominator:
  fixes p q m tol :: real
  assumes "0 \<le> p" and "2 * p < 3 * m * q - \<bar>tol * q\<bar>"
  shows "q \<noteq> 0"
  using assms by auto

section \<open>The bracketing solver stays in its bracket\<close>











section \<open>Accuracy of the rate of a two-flow sequence\<close>











end
